theory Spec2Isabelle
  imports Complex_Main
begin

section \<open>Activation confidence annotations\<close>

text \<open>
  The module \<open>medleydb/annotate/activation_conf.py\<close> computes, for every stem of a multitrack, an envelope per analysis frame,
  normalises the stacked envelopes, smooths them and maps them to confidences.

  Numbers: numpy's float64 samples are modelled as \<^typ>\<open>real\<close>; rounding, overflow and
  signed zeros are not modelled. Division by zero, which numpy answers with nan or an
  infinity instead of an exception, is modelled (type \<open>npval\<close> below).
  Exceptions are values of type \<open>error\<close>; a function that can raise returns
  \<open>error + 'a\<close>. Window lengths and stem indices are natural numbers.
\<close>

subsection \<open>Exceptions\<close>

datatype error =
    ZeroDivisionError   \<comment> \<open>\<open>len(wave) / win_len\<close> with \<open>win_len = 0\<close> (line 75)\<close>
  | ParameterError      \<comment> \<open>\<open>librosa.util.frame\<close>: input shorter than a frame, or hop below 1\<close>
  | BroadcastError      \<comment> \<open>numpy ValueError: operands could not be broadcast together (line 88)\<close>
  | InhomogeneousShape  \<comment> \<open>numpy ValueError of \<open>np.array\<close> on rows of differing length (line 28)\<close>
  | EmptyReduction      \<comment> \<open>numpy ValueError: \<open>np.max\<close> of an array without elements (line 33)\<close>
  | IndexError          \<comment> \<open>two-dimensional access to a one-dimensional array (lines 34, 38)\<close>
  | UnboundLocalError   \<comment> \<open>\<open>rate\<close> read at line 52 before any assignment\<close>
  | FilterError         \<comment> \<open>raised inside \<open>scipy.signal.butter\<close> or \<open>filtfilt\<close>\<close>

subsection \<open>The analysis window (line 20)\<close>

text \<open>
  \<open>scipy.signal.windows.hann(M)\<close> with its default \<open>sym=True\<close>: all ones for
  \<open>M \<le> 1\<close>, otherwise \<open>0.5 + 0.5 cos(fac)\<close> over \<open>fac = linspace(-pi, pi, M)\<close>
  (scipy's \<open>general_cosine\<close> with coefficients \<open>[0.5, 0.5]\<close>).
\<close>

definition hann :: "nat \<Rightarrow> real list" where
  "hann M = (if M \<le> 1 then replicate M 1
             else map (\<lambda>n. 1/2 + 1/2 * cos (- pi + real n * (2 * pi / real (M - 1)))) [0..<M])"

text \<open>\<open>hann(M, sym=False)\<close>, the periodic window: scipy computes the symmetric window of
  length \<open>M + 1\<close> and drops its last sample.\<close>

definition hann_periodic :: "nat \<Rightarrow> real list" where
  "hann_periodic M = (if M \<le> 1 then replicate M 1 else butlast (hann (M + 1)))"

text \<open>The Python slice \<open>xs[1:-1]\<close>.\<close>

definition slice_1_m1 :: "'a list \<Rightarrow> 'a list" where
  "slice_1_m1 xs = take (length xs - 2) (drop 1 xs)"

text \<open>\<open>win = scipy.signal.windows.hann(win_len + 2)[1:-1]\<close>; the source comments it as
  the equivalent of MATLAB's \<open>hanning(win_len)\<close>.\<close>

definition hanning :: "nat \<Rightarrow> real list" where
  "hanning win_len = slice_1_m1 (hann (win_len + 2))"

subsection \<open>Envelope of one stem (\<open>track_activation\<close>, \<open>hwr\<close>)\<close>

definition hwr :: "real \<Rightarrow> real" where
  "hwr x = (x + \<bar>x\<bar>) / 2"

text \<open>\<open>librosa.util.fix_length(data, size)\<close>: cut to \<open>size\<close> or pad with zeros at the end.\<close>

definition fix_length :: "real list \<Rightarrow> nat \<Rightarrow> real list" where
  "fix_length data n =
     (if length data > n then take n data
      else data @ replicate (n - length data) 0)"

text \<open>
  \<open>librosa.util.frame(x, frame_length, hop_length)\<close>. The library returns an array of
  shape \<open>(frame_length, n_frames)\<close>; the model keeps it as the list of its columns, that
  is, the rows of \<open>wavmat.T\<close>, which is the only way the caller reads it.
\<close>

definition frame :: "real list \<Rightarrow> nat \<Rightarrow> nat \<Rightarrow> error + real list list" where
  "frame x frame_length hop_length =
     (if length x < frame_length then Inl ParameterError
      else if hop_length < 1 then Inl ParameterError
      else Inr (map (\<lambda>j. take frame_length (drop (j * hop_length) x))
                 [0..<1 + (length x - frame_length) div hop_length]))"

text \<open>\<open>np.mean\<close> of one row.\<close>

definition mean :: "real list \<Rightarrow> real" where
  "mean xs = sum_list xs / real (length xs)"

text \<open>
  Lines 63 to 76 of \<open>track_activation\<close>, for \<open>win_len > 0\<close>: \<open>win_len - hop_len\<close> zeros in
  front, then zeros at the end up to \<open>int(win_len * np.ceil(len(wave) / win_len))\<close> samples
  (\<open>/\<close> is true division: the module imports \<open>division\<close> from \<open>__future__\<close>).
\<close>

definition pad_wave :: "real list \<Rightarrow> nat \<Rightarrow> real list" where
  "pad_wave wave win_len =
     (let hop_len = win_len div 2;
          wave1 = replicate (win_len - hop_len) 0 @ wave
      in fix_length wave1 (win_len * nat \<lceil>real (length wave1) / real win_len\<rceil>))"

text \<open>
  \<open>track_activation(wave, win_len, win)\<close>. \<open>x ** 0.5\<close> is applied to rectified, hence
  non-negative, samples, where it is the square root. In \<open>wavmat.T * win\<close> numpy
  broadcasts: rows of length \<open>win_len\<close> against \<open>win\<close> need equal lengths or a window
  of length one (a frame of length one never gets here: its hop is 0 and \<open>frame\<close> raises).
\<close>

definition track_activation :: "real list \<Rightarrow> nat \<Rightarrow> real list \<Rightarrow> error + real list" where
  "track_activation wave win_len win =
     (let hop_len = win_len div 2
      in if win_len = 0 then Inl ZeroDivisionError
         else
           case frame (pad_wave wave win_len) win_len hop_len of
             Inl e \<Rightarrow> Inl e
           | Inr wavmat \<Rightarrow>
               let wavmat' = map (map (\<lambda>x. sqrt (hwr x))) wavmat
               in if length win = win_len
                  then Inr (map (\<lambda>fr. mean (map2 (*) fr win)) wavmat')
                  else if length win = 1
                  then Inr (map (\<lambda>fr. mean (map (\<lambda>x. x * hd win) fr)) wavmat')
                  else Inl BroadcastError)"

subsection \<open>The loop over the stems (lines 16 to 25)\<close>

text \<open>
  \<open>mtrack.stems\<close> is a dictionary from stem index to track. The model is the list of
  its items in the dictionary's iteration order, each track given by the samples that
  \<open>librosa.load(track.audio_path, sr=44100, mono=True)\<close> returns for it (\<open>audio.T\<close> of a
  one-dimensional array is the array). The loop state is \<open>(H, index_list, rate)\<close>; \<open>rate\<close>
  is bound by the first iteration only, so it is an option.
\<close>

type_synonym multitrack = "(nat \<times> real list) list"

type_synonym loop_state = "real list list \<times> nat list \<times> nat option"

fun stem_loop :: "multitrack \<Rightarrow> nat \<Rightarrow> real list \<Rightarrow> loop_state \<Rightarrow> error + loop_state" where
  "stem_loop [] win_len win st = Inr st"
| "stem_loop ((stem_idx, audio) # rest) win_len win (H, index_list, rate) =
     (case track_activation audio win_len win of
        Inl e \<Rightarrow> Inl e
      | Inr env \<Rightarrow> stem_loop rest win_len win (H @ [env], index_list @ [stem_idx], Some 44100))"

text \<open>\<open>np.array(H)\<close> on a list of rows: rows of differing length have no common shape.
  The empty list gives a one-dimensional array without elements.\<close>

definition np_array :: "real list list \<Rightarrow> error + real list list" where
  "np_array rows =
     (if list_all (\<lambda>r. length r = length (hd rows)) rows then Inr rows
      else Inl InhomogeneousShape)"

subsection \<open>Normalisation and low-energy gate (lines 31 to 34)\<close>

text \<open>A float64 result that may be non-finite.\<close>

datatype npval = Fin real | NaN | PInf | NInf

text \<open>numpy's \<open>x / y\<close> on finite operands: a zero divisor gives nan or a signed infinity
  (and a warning), never an exception.\<close>

definition np_div :: "real \<Rightarrow> real \<Rightarrow> npval" where
  "np_div x y =
     (if y = 0 then (if x = 0 then NaN else if 0 < x then PInf else NInf)
      else Fin (x / y))"

text \<open>\<open>np.sum(H, axis=0)\<close> of a matrix with at least one row.\<close>

definition col_sums :: "real list list \<Rightarrow> real list" where
  "col_sums H = map (\<lambda>f. sum_list (map (\<lambda>row. row ! f) H)) [0..<length (hd H)]"

fun np_max :: "real list \<Rightarrow> error + real" where
  "np_max [] = Inl EmptyReduction"
| "np_max (x # xs) = Inr (fold max xs x)"

text \<open>Line 34, \<open>H[:, E0 < 0.01] = 0.0\<close>, on one row.\<close>

definition gate_row :: "real list \<Rightarrow> npval list \<Rightarrow> npval list" where
  "gate_row E0 row = map (\<lambda>(v, e). if e < 1/100 then Fin 0 else v) (zip row E0)"

text \<open>Lines 31 to 34; \<open>n_stems\<close> is \<open>len(mtrack.stems)\<close>.\<close>

definition normalize :: "nat \<Rightarrow> real list list \<Rightarrow> error + npval list list" where
  "normalize n_stems H =
     (let E0 = col_sums H
      in case np_max E0 of
           Inl e \<Rightarrow> Inl e
         | Inr m \<Rightarrow>
             let H1 = map (map (\<lambda>h. np_div (real n_stems * h) m)) H
             in Inr (map (gate_row E0) H1))"

text \<open>
  Lines 16 to 34 together. With no stem, \<open>np.array([])\<close> is one-dimensional: its sum
  over axis 0 is the scalar 0.0, and the column access of line 34 (and \<open>axis=1\<close> of line
  38) asks for a second dimension that is not there.
\<close>

definition normalized_envelopes ::
  "multitrack \<Rightarrow> nat \<Rightarrow> error + (npval list list \<times> nat list \<times> nat option)" where
  "normalized_envelopes mtrack win_len =
     (let win = hanning win_len
      in case stem_loop mtrack win_len win ([], [], None) of
           Inl e \<Rightarrow> Inl e
         | Inr (H, index_list, rate) \<Rightarrow>
             (case np_array H of
                Inl e \<Rightarrow> Inl e
              | Inr H \<Rightarrow>
                  if H = [] then Inl IndexError
                  else (case normalize (length mtrack) H of
                          Inl e \<Rightarrow> Inl e
                        | Inr H \<Rightarrow> Inr (H, index_list, rate))))"

subsection \<open>Confidence, binarisation, time column (lines 36 to 57)\<close>

definition confidence :: "real \<Rightarrow> real \<Rightarrow> real" where
  "confidence theta h = 1 - 1 / (1 + exp (20 * (h - theta)))"

text \<open>Line 41 on a float64 value: an infinite argument of \<open>exp\<close> gives infinity or 0,
  nan stays nan.\<close>

fun np_confidence :: "real \<Rightarrow> npval \<Rightarrow> npval" where
  "np_confidence theta (Fin h) = Fin (confidence theta h)"
| "np_confidence theta NaN = NaN"
| "np_confidence theta PInf = Fin 1"
| "np_confidence theta NInf = Fin 0"

text \<open>The mask \<open>H > 0.5\<close>: a comparison with nan is false.\<close>

fun gt_half :: "npval \<Rightarrow> bool" where
  "gt_half (Fin c) = (1/2 < c)"
| "gt_half NaN = False"
| "gt_half PInf = True"
| "gt_half NInf = False"

text \<open>Lines 45 and 46: a matrix of zeros of the shape of \<open>H\<close>, set to 1 under the mask.\<close>

definition binarize_output :: "npval list list \<Rightarrow> npval list list" where
  "binarize_output H = map (map (\<lambda>c. if gt_half c then Fin 1 else Fin 0)) H"

text \<open>Lines 40 to 48: the logistic map on every entry, then the optional binarisation.\<close>

definition confidence_output :: "real \<Rightarrow> bool \<Rightarrow> npval list list \<Rightarrow> npval list list" where
  "confidence_output theta binarize H =
     (let H = map (map (np_confidence theta)) H
      in if binarize then binarize_output H else H)"

text \<open>\<open>librosa.core.frames_to_time(frames, sr, hop_length)\<close>.\<close>

definition frames_to_time :: "nat list \<Rightarrow> nat \<Rightarrow> nat \<Rightarrow> real list" where
  "frames_to_time frames sr hop_length = map (\<lambda>f. real (f * hop_length) / real sr) frames"

text \<open>
  The whole function. \<open>scipy.signal.butter\<close> and \<open>filtfilt\<close> (lines 37 and 38) are
  library code: they are the parameter \<open>lp_filter\<close>, which gets the cutoff and the matrix
  and returns a matrix of the same shape or raises. The frame count \<open>H.shape[1]\<close> of
  line 52 is therefore that of the stacked envelopes. \<open>np.vstack((time, H_out)).T\<close> is
  the transpose of the matrix with the time row on top.
\<close>

definition create_activation_annotation ::
  "(real \<Rightarrow> npval list list \<Rightarrow> error + npval list list) \<Rightarrow> multitrack \<Rightarrow> nat \<Rightarrow> real \<Rightarrow> real
     \<Rightarrow> bool \<Rightarrow> error + (npval list list \<times> nat list)" where
  "create_activation_annotation lp_filter mtrack win_len lpf_cutoff theta binarize =
     (case normalized_envelopes mtrack win_len of
        Inl e \<Rightarrow> Inl e
      | Inr (H, index_list, rate) \<Rightarrow>
          let n_frames = length (hd H)
          in (case lp_filter lpf_cutoff H of
                Inl e \<Rightarrow> Inl e
              | Inr H \<Rightarrow>
                  let H_out = confidence_output theta binarize H
                  in (case rate of
                        None \<Rightarrow> Inl UnboundLocalError
                      | Some sr \<Rightarrow>
                          let time = frames_to_time [0..<n_frames] sr (win_len div 2)
                          in Inr (transpose (map Fin time # H_out), index_list))))"

subsection \<open>Derived notions used in the statements\<close>

text \<open>The frames that \<open>frame\<close> cuts out of the padded wave with hop \<open>win_len // 2\<close>.\<close>

definition frames_of :: "real list \<Rightarrow> nat \<Rightarrow> real list list" where
  "frames_of wave win_len =
     map (\<lambda>j. take win_len (drop (j * (win_len div 2)) (pad_wave wave win_len)))
       [0..<1 + (length (pad_wave wave win_len) - win_len) div (win_len div 2)]"

text \<open>The envelope that \<open>track_activation\<close> returns when nothing raises.\<close>

definition envelope_of :: "real list \<Rightarrow> nat \<Rightarrow> real list \<Rightarrow> real list" where
  "envelope_of wave win_len win =
     map (\<lambda>fr. mean (map2 (*) (map (\<lambda>x. sqrt (hwr x)) fr) win)) (frames_of wave win_len)"

text \<open>
  The window as the specification words it: the textbook symmetric Hann window
  \<open>w(k) = 0.5 (1 - cos(2 pi k / (M - 1)))\<close> of length \<open>win_len + 2\<close>, without its first and
  its last sample.
\<close>

definition symmetric_hann_spec :: "nat \<Rightarrow> real list" where
  "symmetric_hann_spec M = map (\<lambda>k. 1/2 * (1 - cos (2 * pi * real k / real (M - 1)))) [0..<M]"

definition analysis_window_spec :: "nat \<Rightarrow> real list" where
  "analysis_window_spec win_len = butlast (tl (symmetric_hann_spec (win_len + 2)))"

section \<open>The analysis window\<close>

lemma length_hann [simp]: "length (hann M) = M"
  by (simp add: hann_def)

lemma length_hanning [simp]: "length (hanning n) = n"
  by (simp add: hanning_def slice_1_m1_def)

lemma hanning_nth:
  assumes "k < n"
  shows "hanning n ! k = 1/2 - 1/2 * cos (2 * pi * real (k + 1) / real (n + 1))"
proof -
  have "hanning n ! k = hann (n + 2) ! (k + 1)"
    using assms by (simp add: hanning_def slice_1_m1_def)
  also have "\<dots> = 1/2 + 1/2 * cos (- pi + real (k + 1) * (2 * pi / real (n + 1)))"
    using assms by (simp add: hann_def nth_map_upt del: upt_Suc)
  also have "\<dots> = 1/2 - 1/2 * cos (2 * pi * real (k + 1) / real (n + 1))"
  proof -
    have "cos (- pi + real (k + 1) * (2 * pi / real (n + 1)))
          = cos (real (k + 1) * (2 * pi / real (n + 1)) - pi)" by (simp add: algebra_simps)
    also have "\<dots> = - cos (real (k + 1) * (2 * pi / real (n + 1)))" by (rule cos_minus_pi)
    also have "real (k + 1) * (2 * pi / real (n + 1)) = 2 * pi * real (k + 1) / real (n + 1)"
      by simp
    finally show ?thesis by (simp add: mult_ac)
  qed
  finally show ?thesis .
qed

lemma hanning_closed_form:
  "hanning n = map (\<lambda>k. 1/2 - 1/2 * cos (2 * pi * real (k + 1) / real (n + 1))) [0..<n]"
  by (rule nth_equalityI) (simp_all add: hanning_nth del: of_nat_add of_nat_Suc)

lemma hanning_nonneg: "w \<in> set (hanning n) \<Longrightarrow> 0 \<le> w"
proof -
  assume "w \<in> set (hanning n)"
  then obtain k where "k < n" "w = hanning n ! k"
    by (metis in_set_conv_nth length_hanning)
  then have "w = 1/2 - 1/2 * cos (2 * pi * real (k + 1) / real (n + 1))"
    by (simp only: hanning_nth)
  moreover have "cos (2 * pi * real (k + 1) / real (n + 1)) \<le> 1" by (rule cos_le_one)
  ultimately show ?thesis by simp
qed

lemma cos_lt_one_aux:
  assumes "0 < x" "x < 2 * pi"
  shows "cos x < 1"
proof -
  have "cos x \<noteq> 1"
  proof
    assume "cos x = 1"
    then obtain m :: int where m: "x = of_int m * 2 * pi"
      using cos_one_2pi_int by blast
    from assms(1) m have "0 < m" by (simp add: zero_less_mult_iff)
    moreover from assms(2) m have "m < 1" by simp
    ultimately show False by simp
  qed
  moreover have "cos x \<le> 1" by (rule cos_le_one)
  ultimately show ?thesis by (simp add: less_le)
qed

lemma hanning_hd_pos:
  assumes "1 \<le> n"
  shows "0 < hanning n ! 0"
proof -
  have "0 < 2 * pi / real (n + 1)" by simp
  moreover have "2 * pi / real (n + 1) < 2 * pi"
    using assms by (simp add: field_simps)
  ultimately have "cos (2 * pi / real (n + 1)) < 1"
    by (rule cos_lt_one_aux)
  then show ?thesis using assms hanning_nth[of 0 n] by simp
qed

lemma hann_hd_zero: "2 \<le> M \<Longrightarrow> hann M ! 0 = 0"
  by (simp add: hann_def nth_map_upt del: upt_Suc)

lemma hann_periodic_hd_zero: "2 \<le> M \<Longrightarrow> hann_periodic M ! 0 = 0"
  by (simp add: hann_periodic_def nth_butlast hann_hd_zero)

lemma cos_240: "cos (4 * pi / 3) = - 1/2"
proof -
  have "cos (4 * pi / 3) = cos (pi / 3 + pi)" by (simp add: field_simps)
  also have "\<dots> = - cos (pi / 3)" by (rule cos_periodic_pi)
  finally show ?thesis by (simp add: cos_60)
qed

lemma cos_270: "cos (pi * 3 / 2) = 0"
proof -
  have "pi * 3 / 2 = 3 / 2 * pi" by simp
  then show ?thesis by (simp only: cos_3over2_pi)
qed

lemma hanning_2: "hanning 2 = [3/4, 3/4]"
  by (simp add: hanning_closed_form cos_120 cos_240 numeral_2_eq_2)

lemma hanning_3: "hanning 3 = [1/2, 1, 1/2]"
  by (simp add: hanning_closed_form cos_270 numeral_3_eq_3)

lemma slice_1_m1_eq: "slice_1_m1 xs = butlast (tl xs)"
  by (cases xs) (simp_all add: slice_1_m1_def butlast_conv_take)

lemma analysis_window_spec_closed_form:
  "analysis_window_spec n
   = map (\<lambda>k. 1/2 - 1/2 * cos (2 * pi * real (k + 1) / real (n + 1))) [0..<n]"
proof (rule nth_equalityI)
  show "length (analysis_window_spec n)
        = length (map (\<lambda>k. 1/2 - 1/2 * cos (2 * pi * real (k + 1) / real (n + 1))) [0..<n])"
    by (simp add: analysis_window_spec_def symmetric_hann_spec_def)
next
  fix i assume "i < length (analysis_window_spec n)"
  then have i: "i < n" by (simp add: analysis_window_spec_def symmetric_hann_spec_def)
  then have "analysis_window_spec n ! i = symmetric_hann_spec (n + 2) ! (i + 1)"
    by (simp add: analysis_window_spec_def nth_butlast nth_tl symmetric_hann_spec_def
          del: upt_Suc)
  also have "\<dots> = 1/2 * (1 - cos (2 * pi * real (i + 1) / real (n + 1)))"
    using i by (simp add: symmetric_hann_spec_def nth_map_upt del: upt_Suc)
  finally show "analysis_window_spec n ! i
        = map (\<lambda>k. 1/2 - 1/2 * cos (2 * pi * real (k + 1) / real (n + 1))) [0..<n] ! i"
    using i by (simp add: algebra_simps)
qed

lemma hanning_neq_hann: "hanning (n + 2) \<noteq> hann (n + 2)"
proof
  assume "hanning (n + 2) = hann (n + 2)"
  then have "hanning (n + 2) ! 0 = hann (n + 2) ! 0" by simp
  moreover have "0 < hanning (n + 2) ! 0" by (rule hanning_hd_pos) simp
  moreover have "hann (n + 2) ! 0 = 0" by (rule hann_hd_zero) simp
  ultimately show False by simp
qed

lemma hanning_neq_hann_periodic: "hanning (n + 2) \<noteq> hann_periodic (n + 2)"
proof
  assume "hanning (n + 2) = hann_periodic (n + 2)"
  then have "hanning (n + 2) ! 0 = hann_periodic (n + 2) ! 0" by simp
  moreover have "0 < hanning (n + 2) ! 0" by (rule hanning_hd_pos) simp
  moreover have "hann_periodic (n + 2) ! 0 = 0" by (rule hann_periodic_hd_zero) simp
  ultimately show False by simp
qed

text \<open>
  Claim C6. The window that \<open>create_activation_annotation\<close> builds at line 20 is the
  symmetric Hann window of length \<open>win_len + 2\<close> without its first and last sample. It is
  neither the periodic nor the default (symmetric) Hann window of the same length: those
  start with the sample 0, this one does not.
\<close>

theorem analysis_window_is_trimmed_symmetric_hann:
  "hanning win_len = analysis_window_spec win_len
   \<and> hanning (win_len + 2) \<noteq> hann_periodic (win_len + 2)
   \<and> hanning (win_len + 2) \<noteq> hann (win_len + 2)"
proof (intro conjI)
  show "hanning win_len = analysis_window_spec win_len"
    by (simp only: hanning_closed_form analysis_window_spec_closed_form)
  show "hanning (win_len + 2) \<noteq> hann_periodic (win_len + 2)"
    by (rule hanning_neq_hann_periodic)
  show "hanning (win_len + 2) \<noteq> hann (win_len + 2)"
    by (rule hanning_neq_hann)
qed

section \<open>The envelope of one stem\<close>

lemma ceil_target_ge:
  assumes "0 < w"
  shows "L \<le> w * nat \<lceil>real L / real w\<rceil>"
proof -
  have nn: "0 \<le> \<lceil>real L / real w\<rceil>"
    using ceiling_mono[of 0 "real L / real w"] by simp
  have "real L / real w \<le> of_int \<lceil>real L / real w\<rceil>" by (rule le_of_int_ceiling)
  also have "\<dots> = real (nat \<lceil>real L / real w\<rceil>)" using nn by simp
  finally have "real L / real w \<le> real (nat \<lceil>real L / real w\<rceil>)" .
  moreover have "0 < real w" using assms by simp
  ultimately have "real L \<le> real (nat \<lceil>real L / real w\<rceil>) * real w"
    by (simp only: pos_divide_le_eq)
  then have "real L \<le> real (w * nat \<lceil>real L / real w\<rceil>)"
    by (simp only: of_nat_mult mult.commute)
  then show ?thesis by (simp only: of_nat_le_iff)
qed

lemma ceil_target_pos:
  assumes "0 < w" "0 < L"
  shows "w \<le> w * nat \<lceil>real L / real w\<rceil>"
proof -
  have "0 < real L / real w" using assms by simp
  then have "0 < \<lceil>real L / real w\<rceil>" by (simp only: zero_less_ceiling)
  then have "1 \<le> nat \<lceil>real L / real w\<rceil>" by linarith
  then show ?thesis by simp
qed

lemma length_fix_length: "length (fix_length xs n) = n"
  by (simp add: fix_length_def)

lemma length_pad_wave:
  assumes "0 < win_len"
  shows "length (pad_wave wave win_len)
         = win_len * nat \<lceil>real (win_len - win_len div 2 + length wave) / real win_len\<rceil>"
proof -
  have "length (replicate (win_len - win_len div 2) (0::real) @ wave)
        = win_len - win_len div 2 + length wave" by simp
  then show ?thesis by (simp only: pad_wave_def Let_def length_fix_length)
qed

lemma pad_wave_long:
  assumes "0 < win_len"
  shows "win_len \<le> length (pad_wave wave win_len)"
proof -
  have "0 < win_len - win_len div 2 + length wave" using assms by simp
  from ceil_target_pos[OF assms this] show ?thesis
    by (simp only: length_pad_wave[OF assms])
qed

lemma frame_pad_wave:
  assumes "2 \<le> win_len"
  shows "frame (pad_wave wave win_len) win_len (win_len div 2) = Inr (frames_of wave win_len)"
proof -
  have "win_len \<le> length (pad_wave wave win_len)" using assms by (intro pad_wave_long) simp
  moreover have "1 \<le> win_len div 2" using assms by simp
  ultimately show ?thesis by (simp add: frame_def frames_of_def)
qed

lemma track_activation_ok:
  assumes "2 \<le> win_len" "length win = win_len"
  shows "track_activation wave win_len win
         = Inr (map (\<lambda>fr. mean (map2 (*) (map (\<lambda>x. sqrt (hwr x)) fr) win)) (frames_of wave win_len))"
  using assms by (simp add: track_activation_def frame_pad_wave Let_def comp_def)

lemma hwr_nonneg: "0 \<le> hwr x"
  by (simp add: hwr_def)

lemma mean_nonneg:
  assumes "\<And>x. x \<in> set xs \<Longrightarrow> 0 \<le> x"
  shows "0 \<le> mean xs"
  unfolding mean_def using assms by (intro divide_nonneg_nonneg sum_list_nonneg) simp_all

lemma weighted_frame_nonneg:
  assumes "\<And>w. w \<in> set win \<Longrightarrow> 0 \<le> w" "y \<in> set (map2 (*) (map (\<lambda>x. sqrt (hwr x)) fr) win)"
  shows "0 \<le> (y::real)"
proof -
  from assms(2) obtain a w where "y = a * w" "(a, w) \<in> set (zip (map (\<lambda>x. sqrt (hwr x)) fr) win)"
    by auto
  then have "a \<in> set (map (\<lambda>x. sqrt (hwr x)) fr)" "w \<in> set win"
    by (auto dest: set_zip_leftD set_zip_rightD)
  then have "0 \<le> a" "0 \<le> w" using assms(1) by (auto simp: hwr_nonneg)
  then show ?thesis using \<open>y = a * w\<close> by simp
qed

lemma frame_ones_10_odd:
  "frame (pad_wave [1, 1, 1, 1, 1, 1, 1, 1, 1, 1] 3) 3 (Suc 0)
   = Inr [[0, 0, 1], [0, 1, 1], [1, 1, 1], [1, 1, 1], [1, 1, 1], [1, 1, 1], [1, 1, 1],
          [1, 1, 1], [1, 1, 1], [1, 1, 1]]"
  by code_simp

lemma track_activation_ones_10_odd:
  "track_activation [1, 1, 1, 1, 1, 1, 1, 1, 1, 1] 3 (hanning 3)
   = Inr [1/6, 1/2, 2/3, 2/3, 2/3, 2/3, 2/3, 2/3, 2/3, 2/3]"
  by (simp add: track_activation_def frame_ones_10_odd hanning_3 hwr_def mean_def)

lemma upt_10: "[0..<10] = [0, 1, 2, 3, 4, 5, 6, 7, 8, 9]"
  by code_simp

text \<open>
  Claim C7. For every waveform and every window length of at least two samples,
  \<open>track_activation\<close> with the Hann window of line 20 returns an envelope, and every
  value of it is non-negative. (Window lengths 0 and 1 produce no envelope at all.)
\<close>

theorem envelope_nonneg:
  assumes "2 \<le> win_len"
  shows "\<exists>env. track_activation wave win_len (hanning win_len) = Inr env \<and> (\<forall>e\<in>set env. 0 \<le> e)"
proof -
  have "0 \<le> mean (map2 (*) (map (\<lambda>x. sqrt (hwr x)) fr) (hanning win_len))" for fr
    by (rule mean_nonneg) (rule weighted_frame_nonneg[OF hanning_nonneg])
  then show ?thesis
    using assms by (auto simp: track_activation_ok)
qed

theorem envelope_nonneg_witness:
  "(2::nat) \<le> 2 \<and> (\<exists>env. track_activation [-1, 1] 2 (hanning 2) = Inr env \<and> (\<forall>e\<in>set env. 0 \<le> e))"
  using envelope_nonneg[of 2 "[-1, 1]"] by simp

text \<open>
  Claim C4, as stated: an odd \<open>win_len\<close> makes the pipeline fail. It does not: with
  \<open>win_len = 3\<close> the hop is \<open>3 // 2 = 1\<close>, one stem of ten samples of value 1 gets an
  envelope of ten frames, and lines 16 to 34 return its normalised matrix.
\<close>

theorem odd_win_len_counterexample:
  "normalized_envelopes [(1, [1, 1, 1, 1, 1, 1, 1, 1, 1, 1])] 3
   = Inr ([[Fin (1/4), Fin (3/4), Fin 1, Fin 1, Fin 1, Fin 1, Fin 1, Fin 1, Fin 1, Fin 1]],
          [1], Some 44100)"
  by (simp add: normalized_envelopes_def track_activation_ones_10_odd np_array_def normalize_def
        col_sums_def np_div_def gate_row_def upt_10)

text \<open>
  Claim C4, amended. For an odd \<open>win_len\<close> of at least 3, \<open>track_activation\<close> raises
  nothing: it frames the padded wave with the rounded hop \<open>win_len // 2\<close> and returns the
  mean of each rectified, compressed and weighted frame.
\<close>

theorem odd_win_len_proceeds:
  assumes "odd win_len" "3 \<le> win_len"
  shows "track_activation wave win_len (hanning win_len)
         = Inr (map (\<lambda>fr. mean (map2 (*) (map (\<lambda>x. sqrt (hwr x)) fr) (hanning win_len)))
                 (frames_of wave win_len))"
  using assms by (intro track_activation_ok) simp_all

theorem odd_win_len_proceeds_witness:
  "odd (3::nat) \<and> (3::nat) \<le> 3
   \<and> track_activation [0, 1] 3 (hanning 3)
     = Inr (map (\<lambda>fr. mean (map2 (*) (map (\<lambda>x. sqrt (hwr x)) fr) (hanning 3))) (frames_of [0, 1] 3))"
  using odd_win_len_proceeds[of 3 "[0, 1]"] by simp

section \<open>The loop over the stems\<close>

lemma stem_loop_acc:
  "stem_loop mtrack win_len win (H, index_list, rate) = Inr (H', index_list', rate')
   \<Longrightarrow> index_list' = index_list @ map fst mtrack
       \<and> map Inr H' = map Inr H @ map (\<lambda>(stem_idx, audio). track_activation audio win_len win) mtrack
       \<and> rate' = (if mtrack = [] then rate else Some 44100)"
proof (induction mtrack arbitrary: H index_list rate)
  case Nil
  then show ?case by simp
next
  case (Cons p rest)
  obtain stem_idx audio where p: "p = (stem_idx, audio)" by (cases p)
  from Cons.prems p obtain env where
    env: "track_activation audio win_len win = Inr env"
    and rest: "stem_loop rest win_len win (H @ [env], index_list @ [stem_idx], Some 44100)
               = Inr (H', index_list', rate')"
    by (auto split: sum.splits)
  from Cons.IH[OF rest] show ?case by (simp add: p env)
qed

lemma np_array_ok:
  assumes "\<forall>row\<in>set H. length row = F"
  shows "np_array H = Inr H"
proof -
  have "list_all (\<lambda>r. length r = length (hd H)) H"
  proof (cases H)
    case Nil
    then show ?thesis by simp
  next
    case (Cons r rs)
    with assms show ?thesis by (simp add: list_all_iff)
  qed
  then show ?thesis by (simp add: np_array_def)
qed

lemma frame_silent_1: "frame (pad_wave [0] 2) 2 (Suc 0) = Inr [[0, 0]]"
  by code_simp

lemma frame_silent_2: "frame (pad_wave [0, 0] 2) 2 (Suc 0) = Inr [[0, 0], [0, 0], [0, 0]]"
  by code_simp

lemma track_activation_silent_1: "track_activation [0] 2 (hanning 2) = Inr [0]"
  by (simp add: track_activation_def frame_silent_1 hwr_def mean_def hanning_2)

lemma track_activation_silent_2: "track_activation [0, 0] 2 (hanning 2) = Inr [0, 0, 0]"
  by (simp add: track_activation_def frame_silent_2 hwr_def mean_def hanning_2)

lemma frame_silent_10:
  "frame (pad_wave [0, 0, 0, 0, 0, 0, 0, 0, 0, 0] 2) 2 (Suc 0)
   = Inr [[0, 0], [0, 0], [0, 0], [0, 0], [0, 0], [0, 0], [0, 0], [0, 0], [0, 0], [0, 0], [0, 0]]"
  by code_simp

lemma frame_ones_10:
  "frame (pad_wave [1, 1, 1, 1, 1, 1, 1, 1, 1, 1] 2) 2 (Suc 0)
   = Inr [[0, 1], [1, 1], [1, 1], [1, 1], [1, 1], [1, 1], [1, 1], [1, 1], [1, 1], [1, 1], [1, 0]]"
  by code_simp

lemma track_activation_silent_10:
  "track_activation [0, 0, 0, 0, 0, 0, 0, 0, 0, 0] 2 (hanning 2)
   = Inr [0, 0, 0, 0, 0, 0, 0, 0, 0, 0, 0]"
  by (simp add: track_activation_def frame_silent_10 hwr_def mean_def hanning_2)

lemma track_activation_ones_10:
  "track_activation [1, 1, 1, 1, 1, 1, 1, 1, 1, 1] 2 (hanning 2)
   = Inr [3/8, 3/4, 3/4, 3/4, 3/4, 3/4, 3/4, 3/4, 3/4, 3/4, 3/8]"
  by (simp add: track_activation_def frame_ones_10 hwr_def mean_def hanning_2)

lemma upt_11: "[0..<11] = [0, 1, 2, 3, 4, 5, 6, 7, 8, 9, 10]"
  by code_simp

lemma stem_loop_silent: "stem_loop [(0, [0])] 2 (hanning 2) ([], [], None) = Inr ([[0]], [0], Some 44100)"
  by (simp add: track_activation_silent_1)

section \<open>Normalisation and low-energy gate\<close>

lemma np_max_Max: "xs \<noteq> [] \<Longrightarrow> np_max xs = Inr (Max (set xs))"
proof (cases xs)
  case Nil
  assume "xs \<noteq> []"
  with Nil show ?thesis by simp
next
  case (Cons a list)
  have "Max (set (a # list)) = fold max list a" by (rule Max.set_eq_fold)
  with Cons show ?thesis by simp
qed

lemma length_col_sums: "length (col_sums H) = length (hd H)"
  by (simp add: col_sums_def)

lemma gate_row_eq:
  assumes "length row = length E0"
  shows "gate_row E0 row = map (\<lambda>f. if E0 ! f < 1/100 then Fin 0 else row ! f) [0..<length E0]"
  using assms by (intro nth_equalityI) (simp_all add: gate_row_def)

lemma normalize_eq:
  assumes "H \<noteq> []" "\<And>row. row \<in> set H \<Longrightarrow> length row = F" "0 < F"
  shows "normalize n H
         = Inr (map (\<lambda>row. map (\<lambda>f. if col_sums H ! f < 1/100 then Fin 0
                                      else np_div (real n * row ! f) (Max (set (col_sums H))))
                              [0..<F]) H)"
proof -
  have hd: "length (hd H) = F" using assms(1,2) by simp
  then have len: "length (col_sums H) = F" by (simp add: length_col_sums)
  then have ne: "col_sums H \<noteq> []" using assms(3) by auto
  have row: "gate_row (col_sums H) (map (\<lambda>h. np_div (real n * h) m) row)
             = map (\<lambda>f. if col_sums H ! f < 1/100 then Fin 0 else np_div (real n * row ! f) m) [0..<F]"
    if "row \<in> set H" for row m
  proof -
    have "length (map (\<lambda>h. np_div (real n * h) m) row) = length (col_sums H)"
      using that assms(2) len by simp
    then have "gate_row (col_sums H) (map (\<lambda>h. np_div (real n * h) m) row)
          = map (\<lambda>f. if col_sums H ! f < 1/100 then Fin 0
                      else map (\<lambda>h. np_div (real n * h) m) row ! f) [0..<length (col_sums H)]"
      by (rule gate_row_eq)
    also have "\<dots> = map (\<lambda>f. if col_sums H ! f < 1/100 then Fin 0 else np_div (real n * row ! f) m) [0..<F]"
      using that assms(2) len by simp
    finally show ?thesis .
  qed
  show ?thesis
    by (simp add: normalize_def Let_def np_max_Max[OF ne] row cong: map_cong)
qed

lemma normalize_silent:
  assumes "H \<noteq> []" "\<forall>row\<in>set H. length row = F" "0 < F" "col_sums H = replicate F 0"
  shows "normalize n H = Inr (map (\<lambda>row. replicate F (Fin 0)) H)"
proof -
  have "map (\<lambda>f. if replicate F (0::real) ! f < 1/100 then Fin 0 else g f) [0..<F]
        = replicate F (Fin 0)" for g
    by (rule nth_equalityI) simp_all
  then show ?thesis
    using assms by (simp add: normalize_eq[where F = F])
qed

lemma col_sums_ex: "col_sums [[3/8, 0], [1/8, 0]] = [1/2, 0]"
  by (simp add: col_sums_def numeral_2_eq_2)

text \<open>
  Claim C2. For a stacked envelope matrix \<open>H\<close> with \<open>N\<close> rows of \<open>F\<close> frames whose
  per-frame sum \<open>E0\<close> has a positive maximum, lines 31 to 34 return the matrix whose entry
  for stem \<open>row\<close> and frame \<open>f\<close> is 0 where \<open>E0[f] < 0.01\<close> (the sum before scaling) and
  \<open>row[f] * (N / max(E0))\<close> everywhere else.
\<close>

theorem normalize_scaled_gated:
  assumes "H \<noteq> []" "\<forall>row\<in>set H. length row = F" "0 < F" "0 < Max (set (col_sums H))"
  shows "normalize (length H) H
         = Inr (map (\<lambda>row. map (\<lambda>f. if col_sums H ! f < 1/100 then Fin 0
                                      else Fin (row ! f * (real (length H) / Max (set (col_sums H)))))
                              [0..<F]) H)"
proof -
  have "np_div x (Max (set (col_sums H))) = Fin (x / Max (set (col_sums H)))" for x
    using assms(4) by (simp add: np_div_def)
  then show ?thesis
    using assms(1,2,3) by (simp add: normalize_eq[where F = F] mult.commute)
qed

theorem normalize_scaled_gated_witness:
  "0 < Max (set (col_sums [[3/8, 0], [1/8, 0]]))
   \<and> normalize (length [[3/8, 0], [1/8, 0::real]]) [[3/8, 0], [1/8, 0]]
     = Inr [[Fin (3/2), Fin 0], [Fin (1/2), Fin 0]]"
  using normalize_scaled_gated[of "[[3/8, 0], [1/8, 0]]" 2]
  by (simp add: col_sums_ex numeral_2_eq_2)

text \<open>
  Claim C3, as stated: stems that are silent everywhere make the pipeline fail. They do
  not: for two stems of ten zero samples each, lines 16 to 34 return a matrix of eleven
  frames, all of whose entries are 0.
\<close>

theorem silent_stems_counterexample:
  "normalized_envelopes [(0, [0, 0, 0, 0, 0, 0, 0, 0, 0, 0]), (1, [0, 0, 0, 0, 0, 0, 0, 0, 0, 0])] 2
   = Inr ([[Fin 0, Fin 0, Fin 0, Fin 0, Fin 0, Fin 0, Fin 0, Fin 0, Fin 0, Fin 0, Fin 0],
           [Fin 0, Fin 0, Fin 0, Fin 0, Fin 0, Fin 0, Fin 0, Fin 0, Fin 0, Fin 0, Fin 0]],
          [0, 1], Some 44100)"
  by (simp add: normalized_envelopes_def track_activation_silent_10 np_array_def normalize_def
        col_sums_def np_div_def gate_row_def upt_11)

text \<open>
  Claim C3, amended. If the per-frame sum \<open>E0\<close> of the stacked envelopes is zero at every
  frame, lines 16 to 34 raise nothing: the division by \<open>max(E0) = 0\<close> gives nan entries,
  the gate of line 34 overwrites every one of them, and the normalised matrix that goes on
  to the filter is zero everywhere.
\<close>

theorem silence_normalizes_to_zero:
  assumes "stem_loop mtrack win_len (hanning win_len) ([], [], None) = Inr (H, index_list, rate)"
    and "H \<noteq> []" and "\<forall>row\<in>set H. length row = F" and "0 < F"
    and "col_sums H = replicate F 0"
  shows "normalized_envelopes mtrack win_len
         = Inr (map (\<lambda>row. replicate F (Fin 0)) H, index_list, rate)"
  using assms(1,2) np_array_ok[OF assms(3)] normalize_silent[OF assms(2-5)]
  by (simp add: normalized_envelopes_def)

theorem silence_normalizes_to_zero_witness:
  "stem_loop [(0, [0])] 2 (hanning 2) ([], [], None) = Inr ([[0]], [0], Some 44100)
   \<and> col_sums [[0]] = replicate 1 0
   \<and> normalized_envelopes [(0, [0])] 2 = Inr ([[Fin 0]], [0], Some 44100)"
proof -
  have run: "stem_loop [(0, [0])] 2 (hanning 2) ([], [], None) = Inr ([[0]], [0], Some 44100)"
    by (rule stem_loop_silent)
  have cs: "col_sums [[0]] = replicate 1 0"
    by (simp add: col_sums_def)
  have "normalized_envelopes [(0, [0])] 2 = Inr ([[Fin 0]], [0], Some 44100)"
    using silence_normalizes_to_zero[OF run, of 1] cs by simp
  with run cs show ?thesis by blast
qed

section \<open>Confidence and binarisation\<close>

lemma confidence_less_iff: "confidence theta h1 < confidence theta h2 \<longleftrightarrow> h1 < h2"
proof -
  have pos: "0 < 1 + exp (20 * (h - theta))" for h
    by (simp add: add_pos_pos)
  have "confidence theta h1 < confidence theta h2
        \<longleftrightarrow> 1 / (1 + exp (20 * (h2 - theta))) < 1 / (1 + exp (20 * (h1 - theta)))"
    by (simp add: confidence_def)
  also have "\<dots> \<longleftrightarrow> 1 + exp (20 * (h1 - theta)) < 1 + exp (20 * (h2 - theta))"
    using pos[of h1] pos[of h2] by (simp add: field_simps)
  also have "\<dots> \<longleftrightarrow> h1 < h2" by simp
  finally show ?thesis .
qed

lemma confidence_midpoint: "confidence theta theta = 1/2"
  by (simp add: confidence_def)


lemma gt_half_binarized: "gt_half (if gt_half c then Fin 1 else Fin 0) = gt_half c"
  by simp







section \<open>The whole function\<close>

lemma track_activation_envelope_of:
  assumes "2 \<le> win_len" "length win = win_len"
  shows "track_activation wave win_len win = Inr (envelope_of wave win_len win)"
  using assms by (simp add: track_activation_ok envelope_of_def)

lemma track_activation_Inr_win_len:
  assumes "track_activation wave win_len win = Inr env"
  shows "2 \<le> win_len"
proof (rule ccontr)
  assume "\<not> 2 \<le> win_len"
  then have "win_len = 0 \<or> win_len = 1" by arith
  then have "\<exists>e. track_activation wave win_len win = Inl e"
    by (auto simp: track_activation_def frame_def)
  with assms show False by simp
qed

lemma stem_loop_ok:
  assumes "2 \<le> win_len" "length win = win_len"
  shows "stem_loop mtrack win_len win (H, index_list, rate)
         = Inr (H @ map (\<lambda>(stem_idx, audio). envelope_of audio win_len win) mtrack,
                index_list @ map fst mtrack,
                if mtrack = [] then rate else Some 44100)"
proof (induction mtrack arbitrary: H index_list rate)
  case Nil
  show ?case by simp
next
  case (Cons p rest)
  obtain stem_idx audio where p: "p = (stem_idx, audio)" by (cases p)
  show ?case
    by (simp add: p track_activation_envelope_of[OF assms] Cons.IH)
qed

lemma np_array_Inr: "np_array rows = Inr H \<Longrightarrow> H = rows"
  by (simp add: np_array_def split: if_splits)

lemma np_array_ragged:
  assumes "ea \<in> set rows" "eb \<in> set rows" "length ea \<noteq> length eb"
  shows "np_array rows = Inl InhomogeneousShape"
proof -
  have "\<not> list_all (\<lambda>r. length r = length (hd rows)) rows"
  proof
    assume "list_all (\<lambda>r. length r = length (hd rows)) rows"
    with assms(1,2) have "length ea = length (hd rows)" "length eb = length (hd rows)"
      by (simp_all add: list_all_iff)
    with assms(3) show False by simp
  qed
  then show ?thesis by (simp add: np_array_def)
qed

lemma create_Inr_stem_loop:
  assumes "create_activation_annotation lp_filter mtrack win_len lpf_cutoff theta binarize
           = Inr (A, index_list)"
  shows "\<exists>H rate. stem_loop mtrack win_len (hanning win_len) ([], [], None)
                  = Inr (H, index_list, rate)"
proof -
  from assms obtain Hn rate where
    "normalized_envelopes mtrack win_len = Inr (Hn, index_list, rate)"
    by (auto simp: create_activation_annotation_def Let_def split: sum.splits option.splits)
  then show ?thesis
    by (auto simp: normalized_envelopes_def Let_def dest: np_array_Inr
          split: sum.splits if_splits)
qed

lemma normalized_two_stems:
  "normalized_envelopes [(2, [1, 1, 1, 1, 1, 1, 1, 1, 1, 1]), (1, [0, 0, 0, 0, 0, 0, 0, 0, 0, 0])] 2
   = Inr ([[Fin 1, Fin 2, Fin 2, Fin 2, Fin 2, Fin 2, Fin 2, Fin 2, Fin 2, Fin 2, Fin 1],
           [Fin 0, Fin 0, Fin 0, Fin 0, Fin 0, Fin 0, Fin 0, Fin 0, Fin 0, Fin 0, Fin 0]],
          [2, 1], Some 44100)"
  by (simp add: normalized_envelopes_def track_activation_ones_10 track_activation_silent_10
        np_array_def normalize_def col_sums_def np_div_def gate_row_def upt_11)

text \<open>
  Claim C1, as stated: the rows of the envelope matrix and the returned index list are in
  ascending order of the stem index, whatever the iteration order of the stem mapping.
  They are not: a mapping that iterates over stem 2 (ten samples of value 1) before stem 1
  (ten zero samples) gives the index list \<open>[2, 1]\<close>, and the first row is the envelope of
  stem 2.
\<close>

theorem iteration_order_counterexample:
  "normalized_envelopes [(2, [1, 1, 1, 1, 1, 1, 1, 1, 1, 1]), (1, [0, 0, 0, 0, 0, 0, 0, 0, 0, 0])] 2
   = Inr ([[Fin 1, Fin 2, Fin 2, Fin 2, Fin 2, Fin 2, Fin 2, Fin 2, Fin 2, Fin 2, Fin 1],
           [Fin 0, Fin 0, Fin 0, Fin 0, Fin 0, Fin 0, Fin 0, Fin 0, Fin 0, Fin 0, Fin 0]],
          [2, 1], Some 44100)
   \<and> \<not> sorted [2, 1 :: nat]"
  using normalized_two_stems by simp

lemma create_pass_through:
  "create_activation_annotation (\<lambda>c H. Inr H)
     [(2, [1, 1, 1, 1, 1, 1, 1, 1, 1, 1]), (1, [0, 0, 0, 0, 0, 0, 0, 0, 0, 0])] 2 (75/1000) (15/100) True
   = Inr ([[Fin 0, Fin 1, Fin 0],
           [Fin (1/44100), Fin 1, Fin 0],
           [Fin (2/44100), Fin 1, Fin 0],
           [Fin (3/44100), Fin 1, Fin 0],
           [Fin (4/44100), Fin 1, Fin 0],
           [Fin (5/44100), Fin 1, Fin 0],
           [Fin (6/44100), Fin 1, Fin 0],
           [Fin (7/44100), Fin 1, Fin 0],
           [Fin (8/44100), Fin 1, Fin 0],
           [Fin (9/44100), Fin 1, Fin 0],
           [Fin (10/44100), Fin 1, Fin 0]], [2, 1])"
proof -
  have c0: "\<not> 1/2 < confidence (15/100) 0"
    using confidence_less_iff[of "15/100" "15/100" 0] by (simp add: confidence_midpoint)
  have c1: "1/2 < confidence (15/100) 1"
    using confidence_less_iff[of "15/100" "15/100" 1] by (simp add: confidence_midpoint)
  have c2: "1/2 < confidence (15/100) 2"
    using confidence_less_iff[of "15/100" "15/100" 2] by (simp add: confidence_midpoint)
  show ?thesis
    unfolding create_activation_annotation_def normalized_two_stems
    using c0 c1 c2
    by (simp add: confidence_output_def binarize_output_def frames_to_time_def upt_11)
qed

text \<open>
  Claim C1, amended. Whenever \<open>create_activation_annotation\<close> returns, the returned index
  list is the list of the stem indices in the iteration order of \<open>mtrack.stems\<close>, and the
  rows of the envelope matrix are the envelopes of the stems in that same order (so they
  ascend by index exactly when the mapping iterates in ascending order).
\<close>

theorem rows_follow_iteration_order:
  assumes "create_activation_annotation lp_filter mtrack win_len lpf_cutoff theta binarize
           = Inr (A, index_list)"
  shows "index_list = map fst mtrack
         \<and> (\<exists>H rate. stem_loop mtrack win_len (hanning win_len) ([], [], None)
                        = Inr (H, index_list, rate)
                      \<and> map Inr H = map (\<lambda>(stem_idx, audio).
                                            track_activation audio win_len (hanning win_len)) mtrack)"
proof -
  from create_Inr_stem_loop[OF assms] obtain H rate where
    run: "stem_loop mtrack win_len (hanning win_len) ([], [], None) = Inr (H, index_list, rate)"
    by blast
  from stem_loop_acc[OF run] run show ?thesis by auto
qed

theorem rows_follow_iteration_order_witness:
  "create_activation_annotation (\<lambda>c H. Inr H)
     [(2, [1, 1, 1, 1, 1, 1, 1, 1, 1, 1]), (1, [0, 0, 0, 0, 0, 0, 0, 0, 0, 0])] 2 (75/1000) (15/100) True
   = Inr ([[Fin 0, Fin 1, Fin 0],
           [Fin (1/44100), Fin 1, Fin 0],
           [Fin (2/44100), Fin 1, Fin 0],
           [Fin (3/44100), Fin 1, Fin 0],
           [Fin (4/44100), Fin 1, Fin 0],
           [Fin (5/44100), Fin 1, Fin 0],
           [Fin (6/44100), Fin 1, Fin 0],
           [Fin (7/44100), Fin 1, Fin 0],
           [Fin (8/44100), Fin 1, Fin 0],
           [Fin (9/44100), Fin 1, Fin 0],
           [Fin (10/44100), Fin 1, Fin 0]], [2, 1])
   \<and> [2, 1] = map fst [(2 :: nat, [1, 1, 1, 1, 1, 1, 1, 1, 1, 1 :: real]),
                     (1, [0, 0, 0, 0, 0, 0, 0, 0, 0, 0])]
   \<and> (\<exists>H rate. stem_loop [(2, [1, 1, 1, 1, 1, 1, 1, 1, 1, 1]), (1, [0, 0, 0, 0, 0, 0, 0, 0, 0, 0])]
                    2 (hanning 2) ([], [], None)
                  = Inr (H, [2, 1], rate)
                \<and> map Inr H
                  = map (\<lambda>(stem_idx, audio). track_activation audio 2 (hanning 2))
                      [(2 :: nat, [1, 1, 1, 1, 1, 1, 1, 1, 1, 1]), (1, [0, 0, 0, 0, 0, 0, 0, 0, 0, 0])])"
  using create_pass_through rows_follow_iteration_order[OF create_pass_through]
  by (rule conjI)

text \<open>
  Claim C5. If two stems of the multitrack have envelopes of differing frame counts, the
  function fails when it stacks the envelopes (\<open>np.array\<close> at line 28 has no common shape
  for the rows; the specification calls this error FrameCountMismatch), whatever the
  filter would do: no matrix is returned, and no envelope is cut or padded.
\<close>

theorem differing_frame_counts_fail:
  assumes "(i, a) \<in> set mtrack" and "(j, b) \<in> set mtrack"
    and "track_activation a win_len (hanning win_len) = Inr ea"
    and "track_activation b win_len (hanning win_len) = Inr eb"
    and "length ea \<noteq> length eb"
  shows "create_activation_annotation lp_filter mtrack win_len lpf_cutoff theta binarize
         = Inl InhomogeneousShape"
proof -
  have wl: "2 \<le> win_len" using assms(3) by (rule track_activation_Inr_win_len)
  have len: "length (hanning win_len) = win_len" by simp
  let ?H = "map (\<lambda>(stem_idx, audio). envelope_of audio win_len (hanning win_len)) mtrack"
  have run: "stem_loop mtrack win_len (hanning win_len) ([], [], None)
             = Inr (?H, map fst mtrack, if mtrack = [] then None else Some 44100)"
    using stem_loop_ok[OF wl len, of mtrack "[]" "[]" None] by simp
  have "ea = envelope_of a win_len (hanning win_len)" "eb = envelope_of b win_len (hanning win_len)"
    using assms(3,4) track_activation_envelope_of[OF wl len] by simp_all
  then have "ea \<in> set ?H" "eb \<in> set ?H"
    using assms(1,2) by force+
  then have "np_array ?H = Inl InhomogeneousShape"
    using assms(5) by (rule np_array_ragged)
  then have "normalized_envelopes mtrack win_len = Inl InhomogeneousShape"
    by (simp add: normalized_envelopes_def run)
  then show ?thesis by (simp add: create_activation_annotation_def)
qed

theorem differing_frame_counts_fail_witness:
  "track_activation [0] 2 (hanning 2) = Inr [0]
   \<and> track_activation [0, 0] 2 (hanning 2) = Inr [0, 0, 0]
   \<and> length [0 :: real] \<noteq> length [0, 0, 0 :: real]
   \<and> create_activation_annotation (\<lambda>c H. Inr H) [(0, [0]), (1, [0, 0])] 2 (75/1000) (15/100) False
     = Inl InhomogeneousShape"
  using differing_frame_counts_fail[of 0 "[0]" "[(0, [0]), (1, [0, 0])]" 1 "[0, 0]" 2 "[0]" "[0, 0, 0]"]
  by (simp add: track_activation_silent_1 track_activation_silent_2)


end
